theory Spec2Isabelle
  imports Complex_Main "HOL-Library.Sublist"
begin

section \<open>JavaScript numbers\<close>

text \<open>
  The widgets compute with JavaScript numbers. Arithmetic on finite numbers is modelled
  by the reals (no rounding, no overflow). A division by zero does not raise in
  JavaScript: it yields \<open>Infinity\<close>, \<open>-Infinity\<close> or \<open>NaN\<close>. These three are
  collapsed into \<open>NotFinite\<close>, which every later product and sum of the modelled code
  propagates (\<open>Infinity * 0\<close> and \<open>Infinity - Infinity\<close> are \<open>NaN\<close>, every other
  case keeps an infinity or \<open>NaN\<close>). Sizes and range bounds are finite numbers; only
  positions and slider values, which the code computes by division, can be \<open>NotFinite\<close>.
\<close>

datatype jsnum = Fin real | NotFinite

definition jsdiv :: "real \<Rightarrow> real \<Rightarrow> jsnum" where
  "jsdiv a b = (if b = 0 then NotFinite else Fin (a / b))"

fun jsmul :: "jsnum \<Rightarrow> jsnum \<Rightarrow> jsnum" where
  "jsmul (Fin a) (Fin b) = Fin (a * b)"
| "jsmul _ _ = NotFinite"

fun jsadd :: "jsnum \<Rightarrow> jsnum \<Rightarrow> jsnum" where
  "jsadd (Fin a) (Fin b) = Fin (a + b)"
| "jsadd _ _ = NotFinite"

text \<open>\<open>lo <= v && v <= hi\<close>: every comparison with \<open>NaN\<close> is false, and an infinity
  lies in no interval of finite bounds.\<close>

fun inRange :: "real \<Rightarrow> real \<Rightarrow> jsnum \<Rightarrow> bool" where
  "inRange lo hi (Fin v) = (lo \<le> v \<and> v \<le> hi)"
| "inRange lo hi NotFinite = False"


section \<open>Widget state\<close>

datatype policy = FixedPolicy | ExpandingPolicy

datatype layoutKind = FixedLayout | HBoxLayout | VBoxLayout

datatype alignment = Alignment_left | Alignment_center | Alignment_middle | Alignment_top

datatype error = Error string | StructuralMisuse

record clip =
  clip_x :: real
  clip_y :: real
  clip_width :: real
  clip_height :: real
  renderable :: bool

text \<open>
  The fields of one widget (\<open>BaseWidget\<close>), as the specification's data model lists them
  and as \<open>Slider.js\<close> and \<open>BaseWidget-spec.js\<close> use them. The parent and the
  children are not fields here: they are the shape of the tree (section Widget tree).
\<close>

record wprops =
  x_pos :: jsnum
  y_pos :: jsnum
  width :: real
  height :: real
  min_width :: real
  min_height :: real
  max_width :: real
  max_height :: real
  padding_left :: real
  padding_top :: real
  padding_right :: real
  padding_bottom :: real
  hPolicy :: policy
  vPolicy :: policy
  layout :: layoutKind
  hAlign :: alignment
  vAlign :: alignment
  valid :: bool
  bypassDepth :: nat
  disabled :: bool
  theme :: nat
  clipGraphic :: clip


subsection \<open>Validation, invalidation and the clip graphic\<close>

text \<open>Modelled from the spec: \<open>BaseWidget.invalidate\<close> is not among the sources.
  "Sets valid = false on this widget only; no propagation."\<close>

definition invalidate :: "wprops \<Rightarrow> wprops" where
  "invalidate w = w\<lparr>valid := False\<rparr>"

text \<open>Modelled from the spec: \<open>BaseWidget._updateClipGraphic\<close> is not among the sources.
  "Recomputes the visual mask region as the widget's content box size (full size minus
  padding on each side) and position offset by the leading padding; always sets the mask
  non-renderable itself."\<close>

definition updateClipGraphic :: "wprops \<Rightarrow> wprops" where
  "updateClipGraphic w =
     w\<lparr>clipGraphic :=
         \<lparr>clip_x = padding_left w,
          clip_y = padding_top w,
          clip_width = width w - padding_left w - padding_right w,
          clip_height = height w - padding_top w - padding_bottom w,
          renderable = False\<rparr>\<rparr>"

text \<open>Modelled from the spec: \<open>BaseWidget.validate\<close> is not among the sources.
  "Recomputes this widget's own geometry/clip derived state and sets valid = true.
  Does not recurse."\<close>

definition validate :: "wprops \<Rightarrow> wprops" where
  "validate w = (updateClipGraphic w)\<lparr>valid := True\<rparr>"


subsection \<open>The bypass counter and the property setters\<close>

text \<open>Modelled from the spec: \<open>BaseWidget.beginBypassUpdate\<close> and
  \<open>BaseWidget.endBypassUpdate\<close> are not among the sources. They increment and decrement
  \<open>bypassDepth\<close>; an \<open>endBypassUpdate\<close> without a matching \<open>beginBypassUpdate\<close>
  (the counter would go negative) is a contract violation that is surfaced, not clamped.\<close>

definition beginBypassUpdate :: "wprops \<Rightarrow> wprops" where
  "beginBypassUpdate w = w\<lparr>bypassDepth := Suc (bypassDepth w)\<rparr>"

definition endBypassUpdate :: "wprops \<Rightarrow> error + wprops" where
  "endBypassUpdate w =
     (case bypassDepth w of
        0 \<Rightarrow> Inl StructuralMisuse
      | Suc d \<Rightarrow> Inr (w\<lparr>bypassDepth := d\<rparr>))"

text \<open>Modelled from the spec: the property setters of \<open>BaseWidget\<close> are not among the
  sources. A direct setter (size, padding, position) writes its field and calls
  \<open>invalidate()\<close> when \<open>bypassDepth == 0\<close>. \<open>BaseWidget-spec.js\<close> reads the clip
  graphic right after assigning \<open>width\<close> and \<open>height\<close> and expects it recomputed when
  the padding changes, so the size and padding setters recompute it.\<close>

definition afterWrite :: "wprops \<Rightarrow> wprops" where
  "afterWrite w = (if bypassDepth w = 0 then invalidate w else w)"

definition set_x :: "jsnum \<Rightarrow> wprops \<Rightarrow> wprops" where
  "set_x v w = afterWrite (w\<lparr>x_pos := v\<rparr>)"

definition set_y :: "jsnum \<Rightarrow> wprops \<Rightarrow> wprops" where
  "set_y v w = afterWrite (w\<lparr>y_pos := v\<rparr>)"

definition set_width :: "real \<Rightarrow> wprops \<Rightarrow> wprops" where
  "set_width v w = afterWrite (updateClipGraphic (w\<lparr>width := v\<rparr>))"

definition set_height :: "real \<Rightarrow> wprops \<Rightarrow> wprops" where
  "set_height v w = afterWrite (updateClipGraphic (w\<lparr>height := v\<rparr>))"

definition padding_setAllTo :: "real \<Rightarrow> wprops \<Rightarrow> wprops" where
  "padding_setAllTo v w =
     afterWrite (updateClipGraphic
       (w\<lparr>padding_left := v, padding_top := v, padding_right := v, padding_bottom := v\<rparr>))"

text \<open>Modelled from the spec: \<open>BaseWidget.applyPosition\<close> is not among the sources and
  the specification does not describe it; it hands the position to the rendering
  backend and changes none of the fields above.\<close>

definition applyPosition :: "wprops \<Rightarrow> wprops" where
  "applyPosition w = w"

text \<open>The direct setters as one family of mutations, and \<open>m\<close> calls of
  \<open>endBypassUpdate\<close> in a row, the first failure ending the row.\<close>

datatype mutation =
  SetX jsnum | SetY jsnum | SetWidth real | SetHeight real | PaddingSetAllTo real

fun mutate :: "mutation \<Rightarrow> wprops \<Rightarrow> wprops" where
  "mutate (SetX v) w = set_x v w"
| "mutate (SetY v) w = set_y v w"
| "mutate (SetWidth v) w = set_width v w"
| "mutate (SetHeight v) w = set_height v w"
| "mutate (PaddingSetAllTo v) w = padding_setAllTo v w"

fun endBypassUpdates :: "nat \<Rightarrow> wprops \<Rightarrow> error + wprops" where
  "endBypassUpdates 0 w = Inr w"
| "endBypassUpdates (Suc m) w =
     (case endBypassUpdate w of Inl e \<Rightarrow> Inl e | Inr w' \<Rightarrow> endBypassUpdates m w')"

text \<open>A widget as \<open>BaseWidget-spec.js\<close> finds it: padding 4 on every side.\<close>

definition exampleWidget :: wprops where
  "exampleWidget =
     \<lparr>x_pos = Fin 0, y_pos = Fin 0, width = 100, height = 100,
      min_width = 0, min_height = 0, max_width = 10000, max_height = 10000,
      padding_left = 4, padding_top = 4, padding_right = 4, padding_bottom = 4,
      hPolicy = FixedPolicy, vPolicy = FixedPolicy, layout = FixedLayout,
      hAlign = Alignment_left, vAlign = Alignment_top,
      valid = True, bypassDepth = 0, disabled = False, theme = 0,
      clipGraphic = \<lparr>clip_x = 4, clip_y = 4, clip_width = 92, clip_height = 92,
                     renderable = False\<rparr>\<rparr>"


section \<open>Widget tree\<close>

text \<open>
  The tree of widgets: every widget owns the ordered sequence of its children, and a
  child has exactly one parent. A widget of the tree is addressed by the path that
  leads to it from the root, the list of child indices; the root is \<open>[]\<close> and the
  parent of the widget at \<open>p\<close> is the widget at \<open>butlast p\<close>. The operations take
  the whole tree and the path of the widget they are called on, and return the tree.
\<close>

datatype widget = Widget (wp: wprops) (children: "widget list")

type_synonym path = "nat list"

fun subtreeAt :: "widget \<Rightarrow> path \<Rightarrow> widget option" where
  "subtreeAt t [] = Some t"
| "subtreeAt (Widget a cs) (i # p) = (if i < length cs then subtreeAt (cs ! i) p else None)"

definition propsAt :: "widget \<Rightarrow> path \<Rightarrow> wprops option" where
  "propsAt t p = map_option wp (subtreeAt t p)"

fun modifySubtree :: "(widget \<Rightarrow> widget) \<Rightarrow> path \<Rightarrow> widget \<Rightarrow> widget" where
  "modifySubtree g [] t = g t"
| "modifySubtree g (i # p) (Widget a cs) =
     (if i < length cs then Widget a (cs[i := modifySubtree g p (cs ! i)]) else Widget a cs)"

definition onProps :: "(wprops \<Rightarrow> wprops) \<Rightarrow> widget \<Rightarrow> widget" where
  "onProps f t = Widget (f (wp t)) (children t)"

definition parent :: "path \<Rightarrow> path option" where
  "parent p = (if p = [] then None else Some (butlast p))"


subsection \<open>routeInvalidation\<close>



text \<open>\<open>BaseWidget-spec.js\<close> puts a \<open>FixedLayout\<close> or an \<open>HBoxLayout\<close> where the
  specification has the size policy; this is that reading of "fixed".\<close>

definition hasFixedLayout :: "wprops \<Rightarrow> bool" where
  "hasFixedLayout a = (layout a = FixedLayout)"

text \<open>Modelled from the spec: \<open>BaseWidget.routeInvalidation\<close> is not among the sources.
  "Stop invalidation at the first ancestor with a non-expanding policy"; "if no ancestor
  has a fixed policy, continue until the root, which is always marked invalid (a root
  has no parent to defer to)". Which widgets end up invalid is as \<open>BaseWidget-spec.js\<close>,
  the only code on the routine, expects: "should invalidate the first parent with a
  fixed size policy" and "should invalidate the highest parent" find that one widget
  invalid and the calling widget, and the widget between, still valid; so does the
  scenario of the specification's testable properties (root invalid, the two below it
  valid). The walk reads the tree and marks one widget. What makes a widget fixed is
  the first argument: \<open>isFixedOn ax\<close> for the specification's reading,
  \<open>hasFixedLayout\<close> for the tests'.\<close>

function routeInvalidation :: "(wprops \<Rightarrow> bool) \<Rightarrow> widget \<Rightarrow> path \<Rightarrow> widget" where
  "routeInvalidation isFixed t p =
     (case propsAt t p of
        None \<Rightarrow> t
      | Some a \<Rightarrow>
          (case parent p of
             None \<Rightarrow> modifySubtree (onProps invalidate) p t
           | Some q \<Rightarrow>
               (case propsAt t q of
                  None \<Rightarrow> t
                | Some b \<Rightarrow>
                    if isFixed b then modifySubtree (onProps invalidate) q t
                    else routeInvalidation isFixed t q)))"
  by pat_completeness auto
termination
  by (relation "measure (\<lambda>(f, t, p). length p)") (auto simp: parent_def split: if_splits)

declare routeInvalidation.simps [simp del]


subsection \<open>update and recursiveRouteUpdate\<close>

text \<open>
  What \<open>layout.apply\<close> computes is a parameter: from the fields of the owning widget
  and the fields of its children, in order, the fields of the children after the layout
  has placed them. \<open>assignAll\<close> writes them into the children, which keep their own
  children; a child the layout returns nothing for stays as it is.
\<close>

type_synonym layoutFn = "wprops \<Rightarrow> wprops list \<Rightarrow> wprops list"

fun assignAll :: "wprops list \<Rightarrow> widget list \<Rightarrow> widget list" where
  "assignAll (b # bs) (Widget a cs # ws) = Widget b cs # assignAll bs ws"
| "assignAll bs ws = ws"

text \<open>A child whose size on some axis is derived from its parent's: "expanding
  children only".\<close>

definition dependsOnParent :: "wprops \<Rightarrow> bool" where
  "dependsOnParent a = (hPolicy a = ExpandingPolicy \<or> vPolicy a = ExpandingPolicy)"

lemma member_size:
  "x \<in> set ws \<Longrightarrow> size (x::widget) < Suc (size_list size ws)"
  by (induction ws) auto

lemma assignAll_size:
  "x \<in> set (assignAll bs ws) \<Longrightarrow> size x < Suc (size_list size ws)"
  by (induction bs ws rule: assignAll.induct) (auto dest: member_size)

text \<open>Modelled from the spec: \<open>BaseWidget.update\<close> is not among the sources.
  "Invokes this widget's layout.apply(this), then validate(), then recursively calls
  update() on children whose policies depend on this widget's freshly computed size
  (expanding children only)."\<close>

function update :: "layoutFn \<Rightarrow> widget \<Rightarrow> widget" where
  "update L (Widget a cs) =
     Widget (validate a)
       (map (\<lambda>c. if dependsOnParent (wp c) then update L c else c)
            (assignAll (L a (map wp cs)) cs))"
  by pat_completeness auto
termination
  by (relation "measure (\<lambda>(L, t). size t)") (auto dest: assignAll_size)

text \<open>The state of a validation pass: the tree, and the widgets on which
  \<open>recursiveRouteUpdate\<close> has called \<open>update()\<close>, oldest first.\<close>

type_synonym pass = "widget \<times> path list"

definition updateAt :: "layoutFn \<Rightarrow> path \<Rightarrow> pass \<Rightarrow> pass" where
  "updateAt L p st = (modifySubtree (update L) p (fst st), snd st @ [p])"

text \<open>Modelled from the spec: \<open>BaseWidget.recursiveRouteUpdate\<close> is not among the
  sources. "Starting at the calling widget, if it has no parent or its parent is already
  valid, call update() on itself. Otherwise recurse into the parent's
  recursiveRouteUpdate() first, then, once that returns, this widget's own update()
  proceeds."\<close>

function recursiveRouteUpdate :: "layoutFn \<Rightarrow> pass \<Rightarrow> path \<Rightarrow> pass" where
  "recursiveRouteUpdate L st p =
     (case parent p of
        None \<Rightarrow> updateAt L p st
      | Some q \<Rightarrow>
          (case propsAt (fst st) q of
             None \<Rightarrow> updateAt L p st
           | Some a \<Rightarrow>
               if valid a then updateAt L p st
               else updateAt L p (recursiveRouteUpdate L st q)))"
  by pat_completeness auto
termination
  by (relation "measure (\<lambda>(L, st, p). length p)") (auto simp: parent_def split: if_splits)

declare recursiveRouteUpdate.simps [simp del]


subsection \<open>theme and disabled\<close>

text \<open>Modelled from the spec: the setters \<open>theme\<close> and \<open>disabled\<close> of \<open>BaseWidget\<close>
  are not among the sources. "theme (set): cascades the same theme reference to every
  descendant unconditionally. disabled (set): cascades unconditionally to every
  descendant (no per-widget override escape)." A theme is a reference, modelled by a
  number. The specification's sentence on \<open>theme\<close> goes on to an "explicit override
  marker", but its data model has no such field, it names no operation that sets one,
  and neither \<open>Slider.js\<close> nor \<open>BaseWidget-spec.js\<close> has one: the tests set a theme on
  the root and find it at every depth. The cascade is as the tests have it.\<close>

fun set_theme :: "nat \<Rightarrow> widget \<Rightarrow> widget" where
  "set_theme th (Widget a cs) = Widget (a\<lparr>theme := th\<rparr>) (map (set_theme th) cs)"

fun set_disabled :: "bool \<Rightarrow> widget \<Rightarrow> widget" where
  "set_disabled d (Widget a cs) = Widget (a\<lparr>disabled := d\<rparr>) (map (set_disabled d) cs)"


subsection \<open>Reading the tree\<close>

text \<open>Whether the widget at a path is fixed, is valid, is invalid. There is no widget at a path that leaves the tree, and none of the three
  holds there.\<close>

definition fixedAt :: "(wprops \<Rightarrow> bool) \<Rightarrow> widget \<Rightarrow> path \<Rightarrow> bool" where
  "fixedAt isFixed t q = (case propsAt t q of None \<Rightarrow> False | Some a \<Rightarrow> isFixed a)"

definition validAt :: "widget \<Rightarrow> path \<Rightarrow> bool" where
  "validAt t q = (map_option valid (propsAt t q) = Some True)"

definition invalidAt :: "widget \<Rightarrow> path \<Rightarrow> bool" where
  "invalidAt t q = (map_option valid (propsAt t q) = Some False)"


subsection \<open>Example trees\<close>

text \<open>Chains of widgets, each the only child of the one above, three levels as in
  \<open>BaseWidget-spec.js\<close> (\<open>widget0\<close>, \<open>widget1\<close>, \<open>widget2\<close>): the chain as the
  tests' \<open>beforeEach\<close> leaves it, fixed on every level; the chain of the first test,
  which gives \<open>widget1\<close> an \<open>HBoxLayout\<close> and takes the fixed policy from
  \<open>widget2\<close>; a chain that expands on every level; and one with a fixed widget in
  the middle only.\<close>

definition expandingWidget :: wprops where
  "expandingWidget = exampleWidget\<lparr>hPolicy := ExpandingPolicy, vPolicy := ExpandingPolicy\<rparr>"

definition fixedChain :: widget where
  "fixedChain = Widget exampleWidget [Widget exampleWidget [Widget exampleWidget []]]"

definition boxChain :: widget where
  "boxChain =
     Widget exampleWidget
       [Widget (exampleWidget\<lparr>layout := HBoxLayout\<rparr>)
          [Widget (exampleWidget\<lparr>hPolicy := ExpandingPolicy\<rparr>) []]]"


definition fixedMiddleTree :: widget where
  "fixedMiddleTree =
     Widget expandingWidget [Widget exampleWidget [Widget expandingWidget []]]"

definition dirtyMiddleTree :: widget where
  "dirtyMiddleTree =
     Widget exampleWidget
       [Widget (exampleWidget\<lparr>valid := False\<rparr>) [Widget (expandingWidget\<lparr>valid := False\<rparr>) []]]"

text \<open>The layout that leaves every child where it is.\<close>

definition keepLayout :: layoutFn where
  "keepLayout a bs = bs"


section \<open>Slider\<close>

text \<open>The value \<open>val\<close> assigned to \<open>orientation\<close> is compared with \<open>===\<close> against the
  two constants \<open>HORIZONTAL\<close> and \<open>VERTICAL\<close> of \<open>const.js\<close>; any other JavaScript
  value is \<open>OtherValue\<close>.\<close>

datatype orient = HORIZONTAL | VERTICAL | OtherValue nat

text \<open>The slider's own widget fields are \<open>base\<close>; \<open>priv_orientation\<close> and
  \<open>priv_value\<close> are the fields \<open>_orientation\<close> and \<open>_value\<close>; \<open>oldValue\<close> is
  undefined until the first assignment; \<open>valueCB\<close> is \<open>null\<close> or a function of the
  value; \<open>emitted\<close> lists the events the slider has emitted, oldest first.\<close>

record slider =
  base :: wprops
  track :: wprops
  button :: wprops
  priv_orientation :: orient
  minValue :: real
  maxValue :: real
  priv_value :: jsnum
  oldValue :: "jsnum option"
  valueCB :: "(jsnum \<Rightarrow> jsnum) option"
  emitted :: "string list"

text \<open>\<open>settings.slider.track.shortSize\<close>, as \<open>settings.add('slider', ...)\<close> registers it.\<close>

definition settings_slider_track_shortSize :: real where
  "settings_slider_track_shortSize = 5"

definition emit :: "string \<Rightarrow> slider \<Rightarrow> slider" where
  "emit e s = s\<lparr>emitted := emitted s @ [e]\<rparr>"

definition orientation :: "slider \<Rightarrow> orient" where
  "orientation s = priv_orientation s"

text \<open>\<open>get value()\<close>: the value is recomputed from the button's position along the
  track, stored in \<open>_value\<close>, and returned (through \<open>valueCB\<close> when one is set). The
  result is the returned number and the slider after the read. The arithmetic is that
  of the reals: the doubles of the program round each operation, so a bound that holds
  of \<open>raw_value\<close> with no room to spare is not a bound on what the program returns.\<close>

definition raw_value :: "slider \<Rightarrow> jsnum" where
  "raw_value s =
     (if orientation s = HORIZONTAL
      then jsadd (jsmul (jsdiv (maxValue s - minValue s)
                               (width (track s) - width (button s)))
                        (x_pos (button s)))
                 (Fin (minValue s))
      else jsadd (jsmul (jsdiv (maxValue s - minValue s)
                               (height (track s) - height (button s)))
                        (y_pos (button s)))
                 (Fin (minValue s)))"

definition get_value :: "slider \<Rightarrow> jsnum \<times> slider" where
  "get_value s =
     (let v = raw_value s;
          s' = s\<lparr>priv_value := v\<rparr>
      in case valueCB s' of
           Some cb \<Rightarrow> (cb v, s')
         | None \<Rightarrow> (v, s'))"

text \<open>What can be assigned to \<open>value\<close>: a finite number, \<open>NaN\<close>, or an infinity. The
  handler of the track's \<open>sizeChanged\<close> assigns \<open>this._value\<close> back, which a read may
  have left non-finite.\<close>

datatype jsval = Num real | NaN | Infinity | NegInfinity

text \<open>\<open>Math.max(val, m)\<close> and \<open>Math.min(val, m)\<close> for a finite \<open>m\<close>: \<open>NaN\<close> if
  \<open>val\<close> is.\<close>

fun Math_max :: "jsval \<Rightarrow> real \<Rightarrow> jsval" where
  "Math_max (Num v) m = Num (max v m)"
| "Math_max NaN m = NaN"
| "Math_max Infinity m = Infinity"
| "Math_max NegInfinity m = Num m"

fun Math_min :: "jsval \<Rightarrow> real \<Rightarrow> jsval" where
  "Math_min (Num v) m = Num (min v m)"
| "Math_min NaN m = NaN"
| "Math_min Infinity m = Num m"
| "Math_min NegInfinity m = NegInfinity"

text \<open>The value as a stored number, and \<open>(val - lo) / (hi - lo)\<close>: not finite when
  \<open>val\<close> is not.\<close>

fun stored :: "jsval \<Rightarrow> jsnum" where
  "stored (Num v) = Fin v"
| "stored _ = NotFinite"

fun fraction :: "jsval \<Rightarrow> real \<Rightarrow> real \<Rightarrow> jsnum" where
  "fraction (Num v) lo hi = jsdiv (v - lo) (hi - lo)"
| "fraction _ lo hi = NotFinite"

text \<open>\<open>set value(val)\<close>.\<close>

definition set_value :: "jsval \<Rightarrow> slider \<Rightarrow> error + slider" where
  "set_value val0 s =
     (let val = Math_min (Math_max val0 (minValue s)) (maxValue s);
          s1 = s\<lparr>priv_value := stored val, oldValue := Some (stored val)\<rparr>;
          b1 = beginBypassUpdate (button s1);
          b2 = (if orientation s1 = HORIZONTAL
                then applyPosition
                       (set_x (jsmul (fraction val (minValue s1) (maxValue s1))
                                     (Fin (width (track s1) - width b1))) b1)
                else applyPosition
                       (set_y (jsmul (fraction val (minValue s1) (maxValue s1))
                                     (Fin (height (track s1) - height b1))) b1))
      in case endBypassUpdate b2 of
           Inl e \<Rightarrow> Inl e
         | Inr b3 \<Rightarrow> Inr (emit ''changed'' (s1\<lparr>button := b3\<rparr>)))"

text \<open>\<open>set orientation(val)\<close>. The assignments to \<open>track.width\<close> and \<open>track.height\<close>
  go through the track's setters; what listeners of the track do on them is outside
  this function. The last branch throws before anything is written.\<close>

definition set_orientation :: "orient \<Rightarrow> slider \<Rightarrow> error + slider" where
  "set_orientation val s =
     (if val = HORIZONTAL then
        (let s1 = s\<lparr>priv_orientation := val\<rparr>;
             m1 = (base s1)\<lparr>min_height := height (button s1)\<rparr>;
             m2 = m1\<lparr>min_width := width (button s1) * 2\<rparr>;
             m3 = m2\<lparr>max_height := min_height m2\<rparr>;
             m4 = m3\<lparr>max_width := 10000\<rparr>;
             t1 = set_width (width m4) (track s1);
             t2 = set_height settings_slider_track_shortSize t1;
             m5 = m4\<lparr>hAlign := Alignment_left, vAlign := Alignment_middle\<rparr>;
             t3 = t2\<lparr>hPolicy := ExpandingPolicy, vPolicy := FixedPolicy\<rparr>
         in Inr (s1\<lparr>base := m5, track := t3\<rparr>))
      else if val = VERTICAL then
        (let s1 = s\<lparr>priv_orientation := val\<rparr>;
             m1 = (base s1)\<lparr>min_height := height (button s1) * 2\<rparr>;
             m2 = m1\<lparr>min_width := width (button s1)\<rparr>;
             m3 = m2\<lparr>max_height := 10000\<rparr>;
             m4 = m3\<lparr>max_width := min_width m3\<rparr>;
             t1 = set_width settings_slider_track_shortSize (track s1);
             t2 = set_height (height m4) t1;
             m5 = m4\<lparr>hAlign := Alignment_center, vAlign := Alignment_top\<rparr>;
             t3 = t2\<lparr>vPolicy := ExpandingPolicy, hPolicy := FixedPolicy\<rparr>
         in Inr (s1\<lparr>base := m5, track := t3\<rparr>))
      else Inl (Error ''Slider.orientation must be either ST.HORIZONTAL or UI.VERTICAL''))"


text \<open>The track's and the button's extent along the slider's orientation, and the
  button's position along it: what \<open>get value()\<close> and \<open>set value()\<close> read and
  write in their two branches.\<close>

definition trackLength :: "slider \<Rightarrow> real" where
  "trackLength s = (if orientation s = HORIZONTAL then width (track s) else height (track s))"

definition buttonLength :: "slider \<Rightarrow> real" where
  "buttonLength s = (if orientation s = HORIZONTAL then width (button s) else height (button s))"

definition buttonPos :: "slider \<Rightarrow> jsnum" where
  "buttonPos s = (if orientation s = HORIZONTAL then x_pos (button s) else y_pos (button s))"

text \<open>The slider of the specification's scenario: horizontal, track width 392,
  button 20 by 20, values from 0 to 100, no padding of its own. And the same slider
  with the button's \<open>x\<close> at 500, beyond the end of the track, and at 186, the
  middle of its travel.\<close>

definition slider392 :: slider where
  "slider392 =
     \<lparr>base = exampleWidget\<lparr>width := 392, height := 20,
             padding_left := 0, padding_top := 0, padding_right := 0, padding_bottom := 0\<rparr>,
      track = exampleWidget\<lparr>width := 392, height := 5, hPolicy := ExpandingPolicy\<rparr>,
      button = exampleWidget\<lparr>width := 20, height := 20\<rparr>,
      priv_orientation = HORIZONTAL, minValue = 0, maxValue = 100,
      priv_value = Fin 0, oldValue = None, valueCB = None, emitted = []\<rparr>"

definition sliderOffTrack :: slider where
  "sliderOffTrack = slider392\<lparr>button := (button slider392)\<lparr>x_pos := Fin 500\<rparr>\<rparr>"

definition sliderAt186 :: slider where
  "sliderAt186 = slider392\<lparr>button := (button slider392)\<lparr>x_pos := Fin 186\<rparr>\<rparr>"


section \<open>Properties of a single widget\<close>

lemma mutate_valid:
  "valid (mutate mu w) = (if 0 < bypassDepth w then valid w else False)"
  by (cases mu)
    (simp_all add: set_x_def set_y_def set_width_def set_height_def padding_setAllTo_def
      afterWrite_def invalidate_def updateClipGraphic_def)

lemma mutate_bypassDepth: "bypassDepth (mutate mu w) = bypassDepth w"
  by (cases mu)
    (simp_all add: set_x_def set_y_def set_width_def set_height_def padding_setAllTo_def
      afterWrite_def invalidate_def updateClipGraphic_def)

lemma beginBypassUpdate_funpow:
  "(beginBypassUpdate ^^ n) w = w\<lparr>bypassDepth := bypassDepth w + n\<rparr>"
  by (induction n) (simp_all add: beginBypassUpdate_def)

lemma endBypassUpdates_eq:
  "endBypassUpdates m w =
     (if m \<le> bypassDepth w then Inr (w\<lparr>bypassDepth := bypassDepth w - m\<rparr>)
      else Inl StructuralMisuse)"
proof (induction m arbitrary: w)
  case 0
  show ?case by simp
next
  case (Suc m)
  show ?case
  proof (cases "bypassDepth w")
    case 0
    then show ?thesis by (simp add: endBypassUpdate_def)
  next
    case (Suc d)
    then show ?thesis by (simp add: endBypassUpdate_def Suc.IH)
  qed
qed

text \<open>
  C4. A mutation (a position, size or padding setter) leaves \<open>valid\<close> as it was while
  the widget's \<open>bypassDepth\<close> is greater than zero, and sets it to false at
  \<open>bypassDepth == 0\<close>. The calls nest: after \<open>n\<close> calls of \<open>beginBypassUpdate\<close> and
  \<open>m\<close> calls of \<open>endBypassUpdate\<close>, no more than were opened, the depth is the
  starting depth plus \<open>n - m\<close>, \<open>valid\<close> is untouched, and the same mutation
  invalidates exactly when the depth is back at zero. More closing than opening calls
  end in the contract violation.
\<close>

theorem bypass_suppresses_invalidation:
  "valid (mutate mu w) = (if 0 < bypassDepth w then valid w else False) \<and>
   (m \<le> bypassDepth w + n \<longrightarrow>
      (\<exists>w'. endBypassUpdates m ((beginBypassUpdate ^^ n) w) = Inr w' \<and>
            bypassDepth w' = bypassDepth w + n - m \<and>
            valid w' = valid w \<and>
            valid (mutate mu w') = (if m < bypassDepth w + n then valid w else False))) \<and>
   (bypassDepth w + n < m \<longrightarrow>
      endBypassUpdates m ((beginBypassUpdate ^^ n) w) = Inl StructuralMisuse)"
  by (simp add: mutate_valid endBypassUpdates_eq beginBypassUpdate_funpow)

theorem bypass_suppresses_invalidation_witness:
  "valid (mutate (SetX (Fin 3)) exampleWidget) = False \<and>
   (\<exists>w'. endBypassUpdates 1 ((beginBypassUpdate ^^ 2) exampleWidget) = Inr w' \<and>
         bypassDepth w' = 1 \<and> valid (mutate (SetX (Fin 3)) w') = True) \<and>
   (\<exists>w'. endBypassUpdates 2 ((beginBypassUpdate ^^ 2) exampleWidget) = Inr w' \<and>
         bypassDepth w' = 0 \<and> valid (mutate (SetX (Fin 3)) w') = False) \<and>
   endBypassUpdates 3 ((beginBypassUpdate ^^ 2) exampleWidget) = Inl StructuralMisuse"
proof -
  have d: "bypassDepth exampleWidget = 0" "valid exampleWidget"
    by (simp_all add: exampleWidget_def)
  show ?thesis
    using bypass_suppresses_invalidation [of "SetX (Fin 3)" exampleWidget 1 2]
      bypass_suppresses_invalidation [of "SetX (Fin 3)" exampleWidget 2 2]
      bypass_suppresses_invalidation [of "SetX (Fin 3)" exampleWidget 3 2] d
    by auto
qed

text \<open>
  C7. For a widget of width \<open>Wd\<close>, height \<open>Ht\<close> and padding \<open>P\<close> on all four sides
  the clip graphic is \<open>Wd - 2P\<close> wide and \<open>Ht - 2P\<close> high, sits at \<open>(P, P)\<close> and is
  not renderable.
\<close>

theorem clipGraphic_uniform_padding:
  "clipGraphic (updateClipGraphic
     (w\<lparr>width := Wd, height := Ht, padding_left := P, padding_top := P,
        padding_right := P, padding_bottom := P\<rparr>)) =
   \<lparr>clip_x = P, clip_y = P, clip_width = Wd - 2 * P, clip_height = Ht - 2 * P,
    renderable = False\<rparr>"
  by (simp add: updateClipGraphic_def)

text \<open>The test of \<open>BaseWidget-spec.js\<close>: width and height 400 with the padding of 4
  give a clip graphic of 392 by 392 at (4, 4).\<close>

lemma clipGraphic_test_scenario:
  "clipGraphic (set_height 400 (set_width 400 exampleWidget)) =
     \<lparr>clip_x = 4, clip_y = 4, clip_width = 392, clip_height = 392, renderable = False\<rparr>"
  by (simp add: set_height_def set_width_def afterWrite_def invalidate_def
      updateClipGraphic_def exampleWidget_def)

lemma validate_clipGraphic:
  "clipGraphic (validate w) = clipGraphic (updateClipGraphic w) \<and> valid (validate w)"
  by (simp add: validate_def)


section \<open>Properties of the widget tree\<close>

lemma subtreeAt_append:
  "subtreeAt t (p @ q) = Option.bind (subtreeAt t p) (\<lambda>s. subtreeAt s q)"
proof (induction p arbitrary: t)
  case Nil
  show ?case by simp
next
  case (Cons i p)
  show ?case by (cases t) (simp add: Cons.IH)
qed

lemma propsAt_take:
  assumes "propsAt t p \<noteq> None"
  shows "propsAt t (take k p) \<noteq> None"
proof -
  have "subtreeAt t (take k p @ drop k p) \<noteq> None"
    using assms by (simp add: propsAt_def)
  then have "subtreeAt t (take k p) \<noteq> None"
    unfolding subtreeAt_append by (cases "subtreeAt t (take k p)") simp_all
  then show ?thesis by (simp add: propsAt_def)
qed

lemma propsAt_Nil [simp]: "propsAt t [] = Some (wp t)"
  by (simp add: propsAt_def)

lemma propsAt_Cons [simp]:
  "propsAt (Widget a cs) (i # p) = (if i < length cs then propsAt (cs ! i) p else None)"
  by (simp add: propsAt_def)

lemma propsAt_modify_frame:
  "\<not> prefix p q \<Longrightarrow> propsAt (modifySubtree g p t) q = propsAt t q"
proof (induction p arbitrary: t q)
  case Nil
  then show ?case by simp
next
  case (Cons i p)
  obtain a cs where t: "t = Widget a cs" by (cases t)
  show ?case
  proof (cases q)
    case Nil
    then show ?thesis by (simp add: t)
  next
    case (Cons j q')
    then show ?thesis using Cons.prems Cons.IH [of q' "cs ! i"]
      by (auto simp: t nth_list_update)
  qed
qed

lemma subtreeAt_modify_same:
  "subtreeAt (modifySubtree g p t) p = map_option g (subtreeAt t p)"
proof (induction p arbitrary: t)
  case Nil
  show ?case by simp
next
  case (Cons i p)
  show ?case by (cases t) (simp add: Cons.IH)
qed




text \<open>Whenever some ancestor of \<open>W\<close> is fixed, there is a nearest one.\<close>

lemma nearest_fixed_exists:
  assumes "j < length p" "fixedAt isFixed t (take j p)"
  shows "\<exists>k. k < length p \<and> fixedAt isFixed t (take k p) \<and>
             (\<forall>i. k < i \<and> i < length p \<longrightarrow> \<not> fixedAt isFixed t (take i p))"
proof -
  define P where "P k \<longleftrightarrow> k < length p \<and> fixedAt isFixed t (take k p)" for k
  have ex: "P j" using assms by (simp add: P_def)
  have bound: "y \<le> length p" if "P y" for y using that by (simp add: P_def)
  have G: "P (Greatest P)" using ex bound by (rule GreatestI_nat)
  have "\<not> fixedAt isFixed t (take i p)" if i: "Greatest P < i \<and> i < length p" for i
  proof
    assume "fixedAt isFixed t (take i p)"
    then have "P i" using i by (simp add: P_def)
    then have "i \<le> Greatest P" using bound by (rule Greatest_le_nat)
    then show False using i by simp
  qed
  then show ?thesis using G unfolding P_def by blast
qed







text \<open>The two tests of \<open>BaseWidget-spec.js\<close> with "fixed" read from the layout, as
  the tests set it up. On the chain \<open>beforeEach\<close> leaves, \<open>widget1\<close> alone becomes
  invalid; with an \<open>HBoxLayout\<close> on \<open>widget1\<close>, \<open>widget0\<close> alone does.\<close>

lemma routeInvalidation_test_scenarios:
  "validAt (routeInvalidation hasFixedLayout fixedChain [0, 0]) [] \<and>
   invalidAt (routeInvalidation hasFixedLayout fixedChain [0, 0]) [0] \<and>
   validAt (routeInvalidation hasFixedLayout fixedChain [0, 0]) [0, 0] \<and>
   invalidAt (routeInvalidation hasFixedLayout boxChain [0, 0]) [] \<and>
   validAt (routeInvalidation hasFixedLayout boxChain [0, 0]) [0] \<and>
   validAt (routeInvalidation hasFixedLayout boxChain [0, 0]) [0, 0]"
  by (simp add: routeInvalidation.simps fixedChain_def boxChain_def propsAt_def onProps_def
      parent_def validAt_def invalidAt_def hasFixedLayout_def exampleWidget_def
      invalidate_def)

text \<open>Called on the root, \<open>routeInvalidation\<close> marks the root.\<close>

lemma routeInvalidation_root:
  "routeInvalidation isFixed t [] = modifySubtree (onProps invalidate) [] t"
  by (subst routeInvalidation.simps) (simp add: parent_def)

lemma assignAll_length [simp]: "length (assignAll bs ws) = length ws"
  by (induction bs ws rule: assignAll.induct) simp_all

lemma assignAll_children:
  "i < length ws \<Longrightarrow> children (assignAll bs ws ! i) = children (ws ! i)"
proof (induction bs ws arbitrary: i rule: assignAll.induct)
  case (1 b bs a cs ws)
  then show ?case by (cases i) simp_all
qed simp_all

lemma subtreeAt_children:
  "children s' = children s \<Longrightarrow> (subtreeAt s' r = None) = (subtreeAt s r = None)"
  by (cases s'; cases s; cases r) simp_all

lemma wp_update [simp]: "wp (update L s) = validate (wp s)"
  by (cases s) simp

lemma update_defined:
  "(subtreeAt (update L s) r = None) = (subtreeAt s r = None)"
proof (induction r arbitrary: s)
  case Nil
  show ?case by simp
next
  case (Cons i r)
  obtain a cs where s: "s = Widget a cs" by (cases s)
  let ?c = "assignAll (L a (map wp cs)) cs ! i"
  show ?case
  proof (cases "i < length cs")
    case True
    have c: "(subtreeAt ?c r = None) = (subtreeAt (cs ! i) r = None)"
      by (rule subtreeAt_children) (rule assignAll_children [OF True])
    show ?thesis using True c Cons.IH [of ?c] by (simp add: s)
  next
    case False
    then show ?thesis by (simp add: s)
  qed
qed

lemma modify_update_defined:
  "(propsAt (modifySubtree (update L) p t) q = None) = (propsAt t q = None)"
proof (induction p arbitrary: t q)
  case Nil
  show ?case using update_defined [of L t q] by (simp add: propsAt_def)
next
  case (Cons i p)
  obtain a cs where t: "t = Widget a cs" by (cases t)
  show ?case
  proof (cases q)
    case Nil
    then show ?thesis by (simp add: t)
  next
    case (Cons j q')
    then show ?thesis using Cons.IH [of "cs ! i" q']
      by (auto simp: t nth_list_update)
  qed
qed

lemma propsAt_updateAt_same:
  "propsAt (fst (updateAt L p st)) p = map_option validate (propsAt (fst st) p)"
  by (simp add: updateAt_def propsAt_def subtreeAt_modify_same option.map_comp comp_def)

lemma propsAt_updateAt_frame:
  "\<not> prefix p q \<Longrightarrow> propsAt (fst (updateAt L p st)) q = propsAt (fst st) q"
  by (simp add: updateAt_def propsAt_modify_frame)

lemma propsAt_updateAt_defined:
  "(propsAt (fst (updateAt L p st)) q = None) = (propsAt (fst st) q = None)"
  by (simp add: updateAt_def modify_update_defined)

lemma validAt_updateAt:
  "propsAt (fst st) p \<noteq> None \<Longrightarrow> validAt (fst (updateAt L p st)) p"
  by (cases "propsAt (fst st) p") (simp_all add: validAt_def propsAt_updateAt_same validate_def)


lemma chain_paths_snoc:
  assumes "k \<le> length ps"
  shows "map (\<lambda>j. take j (ps @ [i])) [k..<Suc (length (ps @ [i]))] =
         map (\<lambda>j. take j ps) [k..<Suc (length ps)] @ [ps @ [i]]"
proof -
  have "[k..<Suc (length (ps @ [i]))] = [k..<Suc (length ps)] @ [Suc (length ps)]"
    using assms by simp
  moreover have "map (\<lambda>j. take j (ps @ [i])) [k..<Suc (length ps)] =
                 map (\<lambda>j. take j ps) [k..<Suc (length ps)]"
    by (rule map_cong) auto
  ultimately show ?thesis by simp
qed

lemma recursiveRouteUpdate_props:
  assumes "propsAt t p \<noteq> None" "k \<le> length p"
    and "\<forall>j. k \<le> j \<and> j < length p \<longrightarrow> invalidAt t (take j p)"
    and "k = 0 \<or> validAt t (take (k - 1) p)"
  shows "snd (recursiveRouteUpdate L (t, calls) p) =
           calls @ map (\<lambda>j. take j p) [k..<Suc (length p)] \<and>
         (\<forall>j. k \<le> j \<and> j \<le> length p \<longrightarrow>
            validAt (fst (recursiveRouteUpdate L (t, calls) p)) (take j p)) \<and>
         (\<forall>q. (propsAt (fst (recursiveRouteUpdate L (t, calls) p)) q = None) =
               (propsAt t q = None)) \<and>
         (\<forall>q. \<not> prefix (take k p) q \<longrightarrow>
               propsAt (fst (recursiveRouteUpdate L (t, calls) p)) q = propsAt t q)"
  using assms
proof (induction p rule: rev_induct)
  case Nil
  have r: "recursiveRouteUpdate L (t, calls) [] = updateAt L [] (t, calls)"
    by (subst recursiveRouteUpdate.simps) (simp add: parent_def)
  have k: "k = 0" using Nil.prems(2) by simp
  have v: "validAt (fst (updateAt L [] (t, calls))) []"
    by (rule validAt_updateAt) simp
  show ?case unfolding r using k v
    by (simp add: propsAt_updateAt_defined) (simp add: updateAt_def)
next
  case (snoc i ps)
  let ?p = "ps @ [i]"
  let ?st = "(t, calls)"
  have par: "parent ?p = Some ps" by (simp add: parent_def)
  obtain a where a: "propsAt t ps = Some a"
    using propsAt_take [OF snoc.prems(1), of "length ps"] by auto
  show ?case
  proof (cases "valid a")
    case True
    have k: "k = length ?p"
    proof (rule ccontr)
      assume "k \<noteq> length ?p"
      then have "k \<le> length ps \<and> length ps < length ?p" using snoc.prems(2) by simp
      then have "invalidAt t (take (length ps) ?p)"
        using snoc.prems(3) [rule_format, of "length ps"] by simp
      then show False using a True by (simp add: invalidAt_def)
    qed
    have r: "recursiveRouteUpdate L ?st ?p = updateAt L ?p ?st"
      by (subst recursiveRouteUpdate.simps) (simp add: par a True)
    have v: "validAt (fst (updateAt L ?p ?st)) ?p"
      by (rule validAt_updateAt) (use snoc.prems(1) in simp)
    have c1: "snd (updateAt L ?p ?st) = calls @ map (\<lambda>j. take j ?p) [k..<Suc (length ?p)]"
      using k by (simp add: updateAt_def)
    have c2: "\<forall>j. k \<le> j \<and> j \<le> length ?p \<longrightarrow> validAt (fst (updateAt L ?p ?st)) (take j ?p)"
    proof (intro allI impI)
      fix j assume "k \<le> j \<and> j \<le> length ?p"
      then have "j = length ?p" using k by simp
      then show "validAt (fst (updateAt L ?p ?st)) (take j ?p)" using v by simp
    qed
    have c4: "\<forall>q. \<not> prefix (take k ?p) q \<longrightarrow> propsAt (fst (updateAt L ?p ?st)) q = propsAt t q"
      using k by (simp add: propsAt_updateAt_frame)
    show ?thesis unfolding r using c1 c2 c4 by (simp add: propsAt_updateAt_defined)
  next
    case False
    have k: "k \<le> length ps"
    proof (rule ccontr)
      assume "\<not> k \<le> length ps"
      then have "k = length ?p" using snoc.prems(2) by simp
      then have "validAt t ps" using snoc.prems(4) by simp
      then show False using a False by (simp add: validAt_def)
    qed
    let ?st' = "recursiveRouteUpdate L ?st ps"
    have r: "recursiveRouteUpdate L ?st ?p = updateAt L ?p ?st'"
      by (subst recursiveRouteUpdate.simps) (simp add: par a False)
    have ex: "propsAt t ps \<noteq> None" using a by simp
    have chain: "\<forall>j. k \<le> j \<and> j < length ps \<longrightarrow> invalidAt t (take j ps)"
    proof (intro allI impI)
      fix j assume j: "k \<le> j \<and> j < length ps"
      then have "invalidAt t (take j ?p)" using snoc.prems(3) [rule_format, of j] by simp
      then show "invalidAt t (take j ps)" using j by simp
    qed
    have top: "k = 0 \<or> validAt t (take (k - 1) ps)"
      using snoc.prems(4) k by auto
    note IH = snoc.IH [OF ex k chain top]
    have IH1: "snd ?st' = calls @ map (\<lambda>j. take j ps) [k..<Suc (length ps)]"
      using IH by blast
    have IH2: "validAt (fst ?st') (take j ps)" if "k \<le> j \<and> j \<le> length ps" for j
      using IH that by blast
    have IH3: "(propsAt (fst ?st') q = None) = (propsAt t q = None)" for q
      using IH by blast
    have IH4: "propsAt (fst ?st') q = propsAt t q" if "\<not> prefix (take k ps) q" for q
      using IH that by blast
    have c1: "snd (updateAt L ?p ?st') = calls @ map (\<lambda>j. take j ?p) [k..<Suc (length ?p)]"
      unfolding chain_paths_snoc [OF k] using IH1 by (simp add: updateAt_def)
    have c2: "\<forall>j. k \<le> j \<and> j \<le> length ?p \<longrightarrow> validAt (fst (updateAt L ?p ?st')) (take j ?p)"
    proof (intro allI impI)
      fix j assume j: "k \<le> j \<and> j \<le> length ?p"
      show "validAt (fst (updateAt L ?p ?st')) (take j ?p)"
      proof (cases "j = length ?p")
        case True
        have "propsAt (fst ?st') ?p \<noteq> None" using IH3 [of ?p] snoc.prems(1) by simp
        then have "validAt (fst (updateAt L ?p ?st')) ?p" by (rule validAt_updateAt)
        then show ?thesis using True by simp
      next
        case False
        then have le: "j \<le> length ps" using j by simp
        have np: "\<not> prefix ?p (take j ps)"
        proof
          assume "prefix ?p (take j ps)"
          then have "length ?p \<le> length (take j ps)" by (rule prefix_length_le)
          then show False using le by simp
        qed
        have "propsAt (fst (updateAt L ?p ?st')) (take j ps) = propsAt (fst ?st') (take j ps)"
          by (rule propsAt_updateAt_frame [OF np])
        then have "validAt (fst (updateAt L ?p ?st')) (take j ps)"
          using IH2 [of j] j le by (simp add: validAt_def)
        then show ?thesis using le by simp
      qed
    qed
    have c3: "\<forall>q. (propsAt (fst (updateAt L ?p ?st')) q = None) = (propsAt t q = None)"
      by (simp add: propsAt_updateAt_defined IH3)
    have c4: "\<forall>q. \<not> prefix (take k ?p) q \<longrightarrow> propsAt (fst (updateAt L ?p ?st')) q = propsAt t q"
    proof (intro allI impI)
      fix q assume q: "\<not> prefix (take k ?p) q"
      have tk: "take k ?p = take k ps" using k by simp
      have "prefix (take k ?p) ?p" by (rule take_is_prefix)
      then have "\<not> prefix ?p q" using q by (meson prefix_order.trans)
      then have "propsAt (fst (updateAt L ?p ?st')) q = propsAt (fst ?st') q"
        by (rule propsAt_updateAt_frame)
      also have "\<dots> = propsAt t q" using IH4 [of q] q tk by simp
      finally show "propsAt (fst (updateAt L ?p ?st')) q = propsAt t q" .
    qed
    show ?thesis unfolding r using c1 c2 c3 c4 by blast
  qed
qed

text \<open>Every widget has its chain of invalid ancestors, which may be empty: the
  indices \<open>k\<close> the next theorem speaks of exist for every tree and every widget.\<close>

lemma dirty_chain_exists:
  assumes "propsAt t p \<noteq> None"
  shows "\<exists>k. k \<le> length p \<and>
             (\<forall>j. k \<le> j \<and> j < length p \<longrightarrow> invalidAt t (take j p)) \<and>
             (k = 0 \<or> validAt t (take (k - 1) p))"
  using assms
proof (induction p rule: rev_induct)
  case Nil
  show ?case by simp
next
  case (snoc i ps)
  let ?p = "ps @ [i]"
  have ex: "propsAt t ps \<noteq> None"
    using propsAt_take [OF snoc.prems, of "length ps"] by simp
  then obtain a where a: "propsAt t ps = Some a" by auto
  show ?case
  proof (cases "valid a")
    case True
    have v: "validAt t (take (length ?p - 1) ?p)" using a True by (simp add: validAt_def)
    have c: "\<forall>j. length ?p \<le> j \<and> j < length ?p \<longrightarrow> invalidAt t (take j ?p)"
      by auto
    show ?thesis
    proof (intro exI [of _ "length ?p"] conjI)
      show "length ?p \<le> length ?p" by simp
      show "\<forall>j. length ?p \<le> j \<and> j < length ?p \<longrightarrow> invalidAt t (take j ?p)" by (rule c)
      show "length ?p = 0 \<or> validAt t (take (length ?p - 1) ?p)" using v by (rule disjI2)
    qed
  next
    case False
    then have inv: "invalidAt t ps" using a by (simp add: invalidAt_def)
    obtain k where k: "k \<le> length ps"
      and chain: "\<forall>j. k \<le> j \<and> j < length ps \<longrightarrow> invalidAt t (take j ps)"
      and top: "k = 0 \<or> validAt t (take (k - 1) ps)"
      using snoc.IH [OF ex] by blast
    have k': "k \<le> length ?p" using k by simp
    have chain': "\<forall>j. k \<le> j \<and> j < length ?p \<longrightarrow> invalidAt t (take j ?p)"
    proof (intro allI impI)
      fix j assume j: "k \<le> j \<and> j < length ?p"
      show "invalidAt t (take j ?p)"
      proof (cases "j = length ps")
        case True
        then show ?thesis using inv by simp
      next
        case False
        then have lt: "k \<le> j \<and> j < length ps" using j by simp
        then have "invalidAt t (take j ps)" by (rule chain [rule_format])
        then show ?thesis using lt by simp
      qed
    qed
    have top': "k = 0 \<or> validAt t (take (k - 1) ?p)" using top k by auto
    show ?thesis
    proof (intro exI [of _ k] conjI)
      show "k \<le> length ?p" by (rule k')
      show "\<forall>j. k \<le> j \<and> j < length ?p \<longrightarrow> invalidAt t (take j ?p)" by (rule chain')
      show "k = 0 \<or> validAt t (take (k - 1) ?p)" by (rule top')
    qed
  qed
qed

text \<open>
  C3. Let \<open>W\<close> be the widget at \<open>p\<close>, let every widget from the one at \<open>take k p\<close>
  down to the parent of \<open>W\<close> be invalid, and let the widget at \<open>take k p\<close> be the root
  or have a valid parent: it is the highest invalid ancestor of the chain (\<open>W\<close> itself
  when \<open>k = length p\<close>, that is when \<open>W\<close> has no parent or a valid one). Then
  \<open>recursiveRouteUpdate\<close> on \<open>W\<close> calls \<open>update()\<close> on \<open>W\<close> itself when
  \<open>k = length p\<close>, and otherwise runs the parent's \<open>recursiveRouteUpdate\<close> first and
  \<open>W\<close>'s \<open>update()\<close> after it; the calls of \<open>update()\<close> it makes are those on the
  widgets of the chain, from the highest invalid ancestor down to \<open>W\<close>; and afterwards
  every widget of the chain is valid. This holds whatever the layouts compute.
\<close>

theorem recursiveRouteUpdate_updates_dirty_chain:
  assumes W: "propsAt t p \<noteq> None"
    and k: "k \<le> length p"
    and chain: "\<forall>j. k \<le> j \<and> j < length p \<longrightarrow> invalidAt t (take j p)"
    and top: "k = 0 \<or> validAt t (take (k - 1) p)"
  shows "(k = length p \<longrightarrow>
            recursiveRouteUpdate L (t, calls) p = updateAt L p (t, calls)) \<and>
         (k < length p \<longrightarrow>
            recursiveRouteUpdate L (t, calls) p =
              updateAt L p (recursiveRouteUpdate L (t, calls) (butlast p))) \<and>
         snd (recursiveRouteUpdate L (t, calls) p) =
           calls @ map (\<lambda>j. take j p) [k..<Suc (length p)] \<and>
         (\<forall>j. k \<le> j \<and> j \<le> length p \<longrightarrow>
            validAt (fst (recursiveRouteUpdate L (t, calls) p)) (take j p))"
proof -
  have a: "recursiveRouteUpdate L (t, calls) p = updateAt L p (t, calls)" if "k = length p"
  proof (cases "p = []")
    case True
    then show ?thesis by (subst recursiveRouteUpdate.simps) (simp add: parent_def)
  next
    case False
    then have "k \<noteq> 0" using that by simp
    then have "validAt t (take (k - 1) p)" using top by simp
    moreover have "take (k - 1) p = butlast p" using that by (simp add: butlast_conv_take)
    ultimately have "validAt t (butlast p)" by simp
    then show ?thesis using False
      by (subst recursiveRouteUpdate.simps)
        (auto simp: parent_def validAt_def split: option.splits)
  qed
  have b: "recursiveRouteUpdate L (t, calls) p =
             updateAt L p (recursiveRouteUpdate L (t, calls) (butlast p))" if "k < length p"
  proof -
    have ne: "p \<noteq> []" using that by auto
    have "k \<le> length p - 1 \<and> length p - 1 < length p" using that by auto
    then have "invalidAt t (take (length p - 1) p)"
      by (rule chain [rule_format])
    then have "invalidAt t (butlast p)" by (simp add: butlast_conv_take)
    then show ?thesis using ne
      by (subst recursiveRouteUpdate.simps)
        (auto simp: parent_def invalidAt_def split: option.splits)
  qed
  show ?thesis using a b recursiveRouteUpdate_props [OF W k chain top, of L calls] by blast
qed

theorem recursiveRouteUpdate_updates_dirty_chain_witness:
  "snd (recursiveRouteUpdate keepLayout (dirtyMiddleTree, []) [0, 0]) = [[0], [0, 0]] \<and>
   validAt (fst (recursiveRouteUpdate keepLayout (dirtyMiddleTree, []) [0, 0])) [0] \<and>
   validAt (fst (recursiveRouteUpdate keepLayout (dirtyMiddleTree, []) [0, 0])) [0, 0]"
proof -
  let ?t = dirtyMiddleTree and ?p = "[0, 0] :: path"
  have W: "propsAt ?t ?p \<noteq> None" by (simp add: dirtyMiddleTree_def)
  have k: "(1::nat) \<le> length ?p" by simp
  have chain: "\<forall>j. 1 \<le> j \<and> j < length ?p \<longrightarrow> invalidAt ?t (take j ?p)"
  proof (intro allI impI)
    fix j :: nat
    assume "1 \<le> j \<and> j < length ?p"
    then have "j = 1" by simp
    then show "invalidAt ?t (take j ?p)"
      by (simp add: invalidAt_def dirtyMiddleTree_def exampleWidget_def)
  qed
  have top: "(1::nat) = 0 \<or> validAt ?t (take (1 - 1) ?p)"
    by (simp add: validAt_def dirtyMiddleTree_def exampleWidget_def)
  note th = recursiveRouteUpdate_updates_dirty_chain [OF W k chain top, of keepLayout "[]"]
  have calls: "snd (recursiveRouteUpdate keepLayout (?t, []) ?p) = [[0], [0, 0]]"
    using th [THEN conjunct2, THEN conjunct2, THEN conjunct1] by (simp add: upt_rec)
  have "validAt (fst (recursiveRouteUpdate keepLayout (?t, []) ?p)) (take 1 ?p)"
    using th [THEN conjunct2, THEN conjunct2, THEN conjunct2, rule_format, of 1] by simp
  moreover have "validAt (fst (recursiveRouteUpdate keepLayout (?t, []) ?p)) (take 2 ?p)"
    using th [THEN conjunct2, THEN conjunct2, THEN conjunct2, rule_format, of 2] by simp
  ultimately show ?thesis using calls by simp
qed

text \<open>The tests of \<open>BaseWidget-spec.js\<close>: on a widget without a parent the update goes
  to the widget itself; with \<open>widget1\<close> invalidated, \<open>recursiveRouteUpdate\<close> on
  \<open>widget2\<close> runs \<open>widget1\<close>'s first.\<close>

lemma recursiveRouteUpdate_root:
  "recursiveRouteUpdate L st [] = updateAt L [] st"
  by (subst recursiveRouteUpdate.simps) (simp add: parent_def)

lemma recursiveRouteUpdate_test_scenario:
  "recursiveRouteUpdate L (dirtyMiddleTree, []) [0, 0] =
     updateAt L [0, 0] (recursiveRouteUpdate L (dirtyMiddleTree, []) [0])"
  by (subst recursiveRouteUpdate.simps)
    (simp add: parent_def dirtyMiddleTree_def exampleWidget_def)




text \<open>The tests of \<open>BaseWidget-spec.js\<close>: a theme and \<open>disabled\<close> set on \<open>widget0\<close>
  are found on \<open>widget1\<close> and \<open>widget2\<close>.\<close>

lemma cascade_three_depths:
  "map_option theme (propsAt (set_theme 5 fixedMiddleTree) []) = Some 5 \<and>
   map_option theme (propsAt (set_theme 5 fixedMiddleTree) [0]) = Some 5 \<and>
   map_option theme (propsAt (set_theme 5 fixedMiddleTree) [0, 0]) = Some 5 \<and>
   map_option disabled (propsAt (set_disabled True fixedMiddleTree) []) = Some True \<and>
   map_option disabled (propsAt (set_disabled True fixedMiddleTree) [0]) = Some True \<and>
   map_option disabled (propsAt (set_disabled True fixedMiddleTree) [0, 0]) = Some True"
  by (simp add: fixedMiddleTree_def exampleWidget_def expandingWidget_def)


section \<open>Properties of the slider\<close>

lemma raw_value_eq:
  "raw_value s =
     jsadd (jsmul (jsdiv (maxValue s - minValue s) (trackLength s - buttonLength s))
                  (buttonPos s))
           (Fin (minValue s))"
  by (simp add: raw_value_def trackLength_def buttonLength_def buttonPos_def)

lemma get_value_fst:
  "fst (get_value s) =
     (case valueCB s of Some cb \<Rightarrow> cb (raw_value s) | None \<Rightarrow> raw_value s)"
  by (simp add: get_value_def Let_def split: option.splits)

lemma get_value_snd: "snd (get_value s) = s\<lparr>priv_value := raw_value s\<rparr>"
  by (simp add: get_value_def Let_def split: option.splits)

text \<open>\<open>set value()\<close> never fails: its \<open>endBypassUpdate\<close> always has the matching
  \<open>beginBypassUpdate\<close> before it. It stores the clamped value, moves the button along
  the orientation's axis, leaves the button's \<open>valid\<close> flag and \<open>bypassDepth\<close> as
  they were, and emits \<open>changed\<close>.\<close>

lemma set_value_eq:
  "set_value v s =
     Inr (let val = Math_min (Math_max v (minValue s)) (maxValue s);
              pos = jsmul (fraction val (minValue s) (maxValue s))
                          (Fin (trackLength s - buttonLength s))
          in if orientation s = HORIZONTAL
             then s\<lparr>priv_value := stored val, oldValue := Some (stored val),
                    button := (button s)\<lparr>x_pos := pos\<rparr>,
                    emitted := emitted s @ [''changed'']\<rparr>
             else s\<lparr>priv_value := stored val, oldValue := Some (stored val),
                    button := (button s)\<lparr>y_pos := pos\<rparr>,
                    emitted := emitted s @ [''changed'']\<rparr>)"
  by (simp add: set_value_def Let_def orientation_def beginBypassUpdate_def
      endBypassUpdate_def set_x_def set_y_def afterWrite_def applyPosition_def emit_def
      trackLength_def buttonLength_def)

text \<open>
  C8. Assigning to \<open>orientation\<close> a value that is neither \<open>HORIZONTAL\<close> nor
  \<open>VERTICAL\<close> throws the error "Slider.orientation must be either ST.HORIZONTAL or
  UI.VERTICAL": the result is the error and no slider, so no orientation was stored,
  coerced or defaulted.
\<close>

theorem set_orientation_rejects_other_values:
  "val \<noteq> HORIZONTAL \<Longrightarrow> val \<noteq> VERTICAL \<Longrightarrow>
     set_orientation val s =
       Inl (Error ''Slider.orientation must be either ST.HORIZONTAL or UI.VERTICAL'')"
  by (simp add: set_orientation_def)

theorem set_orientation_rejects_other_values_witness:
  "OtherValue 7 \<noteq> HORIZONTAL \<and> OtherValue 7 \<noteq> VERTICAL \<and>
   set_orientation (OtherValue 7) slider392 =
     Inl (Error ''Slider.orientation must be either ST.HORIZONTAL or UI.VERTICAL'')"
  using set_orientation_rejects_other_values [of "OtherValue 7" slider392] by simp

text \<open>The two constants are accepted and stored.\<close>

lemma set_orientation_accepts:
  "(\<exists>s'. set_orientation HORIZONTAL s = Inr s' \<and> orientation s' = HORIZONTAL) \<and>
   (\<exists>s'. set_orientation VERTICAL s = Inr s' \<and> orientation s' = VERTICAL)"
  by (simp add: set_orientation_def Let_def orientation_def)

text \<open>
  C10. Reading \<open>value\<close> is not a pure read. The slider after the read is the slider
  before it with \<open>_value\<close> overwritten by the number recomputed from the button's
  position, the raw one also when a callback \<open>valueCB\<close> is set; the callback changes
  only the number that is returned.
\<close>

theorem get_value_overwrites_stored_value:
  "snd (get_value s) = s\<lparr>priv_value := raw_value s\<rparr> \<and>
   raw_value s =
     jsadd (jsmul (jsdiv (maxValue s - minValue s) (trackLength s - buttonLength s))
                  (buttonPos s))
           (Fin (minValue s)) \<and>
   fst (get_value s) =
     (case valueCB s of Some cb \<Rightarrow> cb (raw_value s) | None \<Rightarrow> raw_value s)"
  by (simp add: get_value_fst get_value_snd raw_value_eq [symmetric])

text \<open>With the button at \<open>x = 186\<close> and a callback that adds 1, the read returns 51
  and leaves 50 in \<open>_value\<close>, which was 0 before the read.\<close>

lemma get_value_callback_example:
  "fst (get_value (slider392\<lparr>button := (button slider392)\<lparr>x_pos := Fin 186\<rparr>,
                             valueCB := Some (\<lambda>v. jsadd v (Fin 1))\<rparr>)) = Fin 51 \<and>
   priv_value (snd (get_value (slider392\<lparr>button := (button slider392)\<lparr>x_pos := Fin 186\<rparr>,
                             valueCB := Some (\<lambda>v. jsadd v (Fin 1))\<rparr>))) = Fin 50 \<and>
   priv_value slider392 = Fin 0"
  by (simp add: get_value_fst get_value_snd raw_value_def slider392_def exampleWidget_def
      orientation_def jsdiv_def)

lemma set_value_keeps_button_flags:
  "set_value v s = Inr s' \<Longrightarrow>
     valid (button s') = valid (button s) \<and> bypassDepth (button s') = bypassDepth (button s)"
  by (auto simp: set_value_eq Let_def split: if_splits)

lemma set_value_stores_clamped:
  "\<exists>s'. set_value v s = Inr s' \<and>
        priv_value s' = stored (Math_min (Math_max v (minValue s)) (maxValue s)) \<and>
        oldValue s' = Some (priv_value s')"
  by (simp add: set_value_eq Let_def)

lemma clamp_in_range:
  "lo \<le> hi \<Longrightarrow>
     (if v = NaN then stored (Math_min (Math_max v lo) hi) = NotFinite
      else inRange lo hi (stored (Math_min (Math_max v lo) hi)))"
  by (cases v) simp_all

text \<open>
  C5, as the code has it. Only the setter clamps. When \<open>val\<close> is assigned, \<open>_value\<close>
  is \<open>Math.min(Math.max(val, minValue), maxValue)\<close>: for every \<open>val\<close> but \<open>NaN\<close>,
  the infinities included, it lies within \<open>[minValue, maxValue]\<close> when
  \<open>minValue \<le> maxValue\<close>, and for \<open>NaN\<close> it is \<open>NaN\<close>. When \<open>value\<close> is read with
  no callback set, the result is the number recomputed from the button's position and
  \<open>_value\<close> holds that same number; the getter has no clamp.
\<close>

theorem setter_clamps_and_getter_stores_what_it_returns:
  assumes cb: "valueCB s = None"
    and range: "minValue s \<le> maxValue s"
  shows "(\<exists>s'. set_value val s = Inr s' \<and>
               priv_value s' = stored (Math_min (Math_max val (minValue s)) (maxValue s)) \<and>
               (if val = NaN then priv_value s' = NotFinite
                else inRange (minValue s) (maxValue s) (priv_value s'))) \<and>
         fst (get_value s) = raw_value s \<and>
         priv_value (snd (get_value s)) = fst (get_value s)"
proof -
  obtain s' where s': "set_value val s = Inr s'"
    "priv_value s' = stored (Math_min (Math_max val (minValue s)) (maxValue s))"
    using set_value_stores_clamped [of val s] by blast
  have "if val = NaN then priv_value s' = NotFinite
        else inRange (minValue s) (maxValue s) (priv_value s')"
    unfolding s'(2) using range by (rule clamp_in_range)
  then have setter: "\<exists>s'. set_value val s = Inr s' \<and>
               priv_value s' = stored (Math_min (Math_max val (minValue s)) (maxValue s)) \<and>
               (if val = NaN then priv_value s' = NotFinite
                else inRange (minValue s) (maxValue s) (priv_value s'))"
    using s' by blast
  have get: "fst (get_value s) = raw_value s" using cb by (simp add: get_value_fst)
  have "priv_value (snd (get_value s)) = raw_value s" by (simp add: get_value_snd)
  then show ?thesis using setter get by simp
qed

theorem setter_clamps_and_getter_stores_what_it_returns_witness:
  "(\<exists>s'. set_value (Num 250) sliderAt186 = Inr s' \<and> priv_value s' = Fin 100) \<and>
   (\<exists>s'. set_value (Num 37) sliderAt186 = Inr s' \<and> priv_value s' = Fin 37) \<and>
   (\<exists>s'. set_value NegInfinity sliderAt186 = Inr s' \<and> priv_value s' = Fin 0) \<and>
   (\<exists>s'. set_value Infinity sliderAt186 = Inr s' \<and> priv_value s' = Fin 100) \<and>
   (\<exists>s'. set_value NaN sliderAt186 = Inr s' \<and> priv_value s' = NotFinite) \<and>
   fst (get_value sliderAt186) = Fin 50 \<and>
   priv_value (snd (get_value sliderAt186)) = Fin 50 \<and>
   priv_value sliderAt186 = Fin 0"
proof -
  have h: "valueCB sliderAt186 = None" "minValue sliderAt186 \<le> maxValue sliderAt186"
    by (simp_all add: sliderAt186_def slider392_def)
  have m: "minValue sliderAt186 = 0" "maxValue sliderAt186 = 100"
    "priv_value sliderAt186 = Fin 0"
    by (simp_all add: sliderAt186_def slider392_def)
  have r: "raw_value sliderAt186 = Fin 50"
    by (simp add: raw_value_def sliderAt186_def slider392_def exampleWidget_def
        orientation_def jsdiv_def)
  note th = setter_clamps_and_getter_stores_what_it_returns [OF h]
  have a: "\<exists>s'. set_value (Num 250) sliderAt186 = Inr s' \<and> priv_value s' = Fin 100"
    using th [of "Num 250", THEN conjunct1] m by auto
  have b: "\<exists>s'. set_value (Num 37) sliderAt186 = Inr s' \<and> priv_value s' = Fin 37"
    using th [of "Num 37", THEN conjunct1] m by auto
  have c: "\<exists>s'. set_value NegInfinity sliderAt186 = Inr s' \<and> priv_value s' = Fin 0"
    using th [of NegInfinity, THEN conjunct1] m by auto
  have d: "\<exists>s'. set_value Infinity sliderAt186 = Inr s' \<and> priv_value s' = Fin 100"
    using th [of Infinity, THEN conjunct1] m by auto
  have e: "\<exists>s'. set_value NaN sliderAt186 = Inr s' \<and> priv_value s' = NotFinite"
    using th [of NaN, THEN conjunct1] by auto
  have f: "fst (get_value sliderAt186) = Fin 50 \<and>
           priv_value (snd (get_value sliderAt186)) = Fin 50"
    using th [of NaN, THEN conjunct2] r by simp
  show ?thesis using a b c d e f m(3) by blast
qed

text \<open>C5 as stated fails: with the button's \<open>x\<close> at 500 on a track of width 392 the
  getter returns \<open>100 / 372 * 500\<close>, more than \<open>maxValue = 100\<close>.\<close>

theorem getter_out_of_range_counterexample:
  "valueCB sliderOffTrack = None \<and>
   fst (get_value sliderOffTrack) = Fin (12500 / 93) \<and>
   priv_value (snd (get_value sliderOffTrack)) = Fin (12500 / 93) \<and>
   \<not> inRange (minValue sliderOffTrack) (maxValue sliderOffTrack)
              (fst (get_value sliderOffTrack))"
  by (simp add: get_value_fst get_value_snd raw_value_def sliderOffTrack_def slider392_def
      exampleWidget_def orientation_def jsdiv_def)

text \<open>The class comment's example assigns \<open>minValue = 40\<close> while \<open>maxValue\<close> still
  has the constructor's 1: a read then returns 40, above \<open>maxValue\<close>.\<close>

lemma getter_inverted_range_example:
  "fst (get_value (slider392\<lparr>minValue := 40, maxValue := 1\<rparr>)) = Fin 40 \<and>
   \<not> inRange 40 1 (fst (get_value (slider392\<lparr>minValue := 40, maxValue := 1\<rparr>)))"
  by (simp add: get_value_fst raw_value_def slider392_def exampleWidget_def
      orientation_def jsdiv_def)

text \<open>In the arithmetic of the reals, assigning a number within the range and reading
  it back gives the number again, on every slider whose range and whose track are not
  degenerate (\<open>minValue\<close> differs from \<open>maxValue\<close>, the track's length from the
  button's): in the degenerate cases the code divides by zero. In doubles the number
  read back can differ in the last digits.\<close>

lemma set_get_roundtrip:
  assumes cb: "valueCB s = None"
    and ne: "minValue s \<noteq> maxValue s" "trackLength s \<noteq> buttonLength s"
    and v: "minValue s \<le> v" "v \<le> maxValue s"
  shows "\<exists>s'. set_value (Num v) s = Inr s' \<and>
           buttonPos s' =
             Fin ((v - minValue s) / (maxValue s - minValue s)
                  * (trackLength s - buttonLength s)) \<and>
           fst (get_value s') = Fin v"
proof -
  have clamp: "min (max v (minValue s)) (maxValue s) = v" using v by simp
  show ?thesis
  proof (cases "orientation s = HORIZONTAL")
    case True
    then show ?thesis using cb ne clamp
      by (simp add: set_value_eq Let_def get_value_fst raw_value_eq jsdiv_def
          trackLength_def buttonLength_def buttonPos_def orientation_def)
  next
    case False
    then show ?thesis using cb ne clamp
      by (simp add: set_value_eq Let_def get_value_fst raw_value_eq jsdiv_def
          trackLength_def buttonLength_def buttonPos_def orientation_def)
  qed
qed

text \<open>
  C6. On a horizontal slider with track width 392, button width 20, \<open>minValue\<close> 0,
  \<open>maxValue\<close> 100 and no callback, assigning 50 puts the button at \<open>x = 186\<close> and
  reading \<open>value\<close> then returns 50; and every value from 0 to 100 that is assigned is
  read back. (Numbers are the reals here, so the returned number is 50 exactly.)
\<close>

theorem slider_392_roundtrip:
  assumes "orientation s = HORIZONTAL" "width (track s) = 392" "width (button s) = 20"
    "minValue s = 0" "maxValue s = 100" "valueCB s = None"
  shows "(\<exists>s'. set_value (Num 50) s = Inr s' \<and> x_pos (button s') = Fin 186 \<and>
               fst (get_value s') = Fin 50) \<and>
         (\<forall>v. 0 \<le> v \<and> v \<le> 100 \<longrightarrow>
               (\<exists>s'. set_value (Num v) s = Inr s' \<and> fst (get_value s') = Fin v))"
proof -
  have len: "trackLength s = 392" "buttonLength s = 20"
    using assms by (simp_all add: trackLength_def buttonLength_def)
  have gen: "\<exists>s'. set_value (Num v) s = Inr s' \<and>
               buttonPos s' = Fin (v / 100 * 372) \<and> fst (get_value s') = Fin v"
    if "0 \<le> v" "v \<le> 100" for v
    using set_get_roundtrip [of s v] that assms len by simp
  have o: "buttonPos s' = x_pos (button s')" if "set_value v s = Inr s'" for v s'
    using that assms(1) by (auto simp: set_value_eq Let_def buttonPos_def orientation_def)
  show ?thesis using gen [of 50] gen o by fastforce
qed

theorem slider_392_roundtrip_witness:
  "orientation slider392 = HORIZONTAL \<and> width (track slider392) = 392 \<and>
   width (button slider392) = 20 \<and> minValue slider392 = 0 \<and> maxValue slider392 = 100 \<and>
   valueCB slider392 = None \<and>
   (\<exists>s'. set_value (Num 50) slider392 = Inr s' \<and> x_pos (button s') = Fin 186 \<and>
         fst (get_value s') = Fin 50) \<and>
   (\<exists>s'. set_value (Num 25) slider392 = Inr s' \<and> fst (get_value s') = Fin 25)"
proof -
  have h: "orientation slider392 = HORIZONTAL" "width (track slider392) = 392"
    "width (button slider392) = 20" "minValue slider392 = 0" "maxValue slider392 = 100"
    "valueCB slider392 = None"
    by (simp_all add: slider392_def exampleWidget_def orientation_def)
  note th = slider_392_roundtrip [OF h]
  have "\<exists>s'. set_value (Num 25) slider392 = Inr s' \<and> fst (get_value s') = Fin 25"
    using th [THEN conjunct2, rule_format, of 25] by simp
  then show ?thesis using th [THEN conjunct1] h by blast
qed

end
